theory Spec2Isabelle
  imports Main "HOL-Library.Stream"
begin

section \<open>The URL shortener of main.py\<close>

text \<open>
  The service keeps one MongoDB collection, \<open>urls\<close>, and serves three handlers over
  it: \<open>shorten_url\<close>, \<open>redirect_to_url\<close> and \<open>get_url_stats\<close>. Each handler is
  modelled as a function of the collection's contents; the handlers that write return
  the new contents. Requests are handled one after another.
\<close>

subsection \<open>Documents and the collection\<close>

text \<open>
  A \<open>datetime\<close> is a number of microseconds, the resolution of
  \<open>datetime.utcnow()\<close>. Python's \<open>int\<close> is unbounded.
\<close>

type_synonym datetime = nat

text \<open>
  The collection keeps a \<open>datetime\<close> as a BSON date, a whole number of milliseconds:
  the driver drops the microseconds below the millisecond when it writes a document,
  and \<open>find_one\<close> gives back the value that was kept.
\<close>

definition bson_datetime :: "datetime \<Rightarrow> datetime" where
  "bson_datetime t = (t div 1000) * 1000"

text \<open>
  A document of \<open>urls\<close>, as \<open>url_data\<close> builds it in \<open>shorten_url\<close>. The
  driver adds a fresh \<open>_id\<close> to each inserted document; no handler reads it.
\<close>

record url_doc =
  short_code :: string
  original_url :: string
  created_at :: datetime
  clicks :: int

text \<open>
  The collection in its natural (insertion) order. main.py creates no index on it, so
  nothing but the handlers' own lookups stands between two documents and an equal
  \<open>short_code\<close> or \<open>original_url\<close>: the collection is a list, not a map.
\<close>

type_synonym store = "url_doc list"

text \<open>\<open>urls.find_one({"short_code": c})\<close>: the first matching document, or None.\<close>

definition find_one_short_code :: "string \<Rightarrow> store \<Rightarrow> url_doc option" where
  "find_one_short_code c s = find (\<lambda>d. short_code d = c) s"

text \<open>\<open>urls.find_one({"original_url": u})\<close>.\<close>

definition find_one_original_url :: "string \<Rightarrow> store \<Rightarrow> url_doc option" where
  "find_one_original_url u s = find (\<lambda>d. original_url d = u) s"

text \<open>
  \<open>urls.insert_one(url_data)\<close>: the document is appended, its \<open>created_at\<close> as
  the collection keeps it. The caller's \<open>url_data["created_at"]\<close> stays as it was.
\<close>

definition insert_one :: "url_doc \<Rightarrow> store \<Rightarrow> store" where
  "insert_one d s = s @ [d\<lparr>created_at := bson_datetime (created_at d)\<rparr>]"

text \<open>
  \<open>urls.update_one({"short_code": c}, {"$inc": {"clicks": 1}})\<close>: the first
  matching document has its \<open>clicks\<close> increased by one; with no match nothing changes.
\<close>

fun update_one_inc_clicks :: "string \<Rightarrow> store \<Rightarrow> store" where
  "update_one_inc_clicks c [] = []"
| "update_one_inc_clicks c (d # s) =
     (if short_code d = c then d\<lparr>clicks := clicks d + 1\<rparr> # s
      else d # update_one_inc_clicks c s)"

subsection \<open>The random source and \<open>generate_short_code\<close>\<close>

text \<open>
  The module \<open>random\<close> is a source of draws: an infinite stream of numbers, one
  consumed by each \<open>random.choice\<close>. Every run of the program is the run on some
  stream.
\<close>

type_synonym rng = "nat stream"

definition ascii_lowercase :: string where
  "ascii_lowercase = ''abcdefghijklmnopqrstuvwxyz''"

definition ascii_uppercase :: string where
  "ascii_uppercase = ''ABCDEFGHIJKLMNOPQRSTUVWXYZ''"

definition ascii_letters :: string where
  "ascii_letters = ascii_lowercase @ ascii_uppercase"

definition digits :: string where
  "digits = ''0123456789''"

text \<open>\<open>characters = string.ascii_letters + string.digits\<close>\<close>

definition characters :: string where
  "characters = ascii_letters @ digits"

text \<open>\<open>Random._randbelow(n)\<close>, for \<open>n > 0\<close>: a number below \<open>n\<close>.\<close>

definition randbelow :: "nat \<Rightarrow> rng \<Rightarrow> nat \<times> rng" where
  "randbelow n g = (shd g mod n, stl g)"

text \<open>
  \<open>random.choice(seq)\<close> is \<open>seq[self._randbelow(len(seq))]\<close>. It raises IndexError
  on an empty sequence; its one call site passes \<open>characters\<close>, which has 62 symbols.
\<close>

definition choice :: "'a list \<Rightarrow> rng \<Rightarrow> 'a \<times> rng" where
  "choice seq g = (case randbelow (length seq) g of (i, g') \<Rightarrow> (seq ! i, g'))"

text \<open>
  \<open>''.join(random.choice(characters) for _ in range(n))\<close>: \<open>n\<close> draws, in order.
\<close>

fun join_choices :: "nat \<Rightarrow> rng \<Rightarrow> string \<times> rng" where
  "join_choices 0 g = ([], g)"
| "join_choices (Suc n) g =
     (case choice characters g of (ch, g') \<Rightarrow>
        (case join_choices n g' of (rest, g'') \<Rightarrow> (ch # rest, g'')))"

text \<open>
  \<open>generate_short_code(length: int = 6)\<close>. \<open>range(length)\<close> is empty for a
  negative \<open>length\<close>.
\<close>

definition generate_short_code :: "int \<Rightarrow> rng \<Rightarrow> string \<times> rng" where
  "generate_short_code len g = join_choices (nat len) g"

subsection \<open>\<open>shorten_url\<close>\<close>

datatype URLResponse =
  URLResponse (short_url: string) (response_original_url: string) (response_created_at: datetime)

text \<open>
  The loop of \<open>shorten_url\<close>:
  \<^verbatim>\<open>
    while await urls.find_one({"short_code": short_code}):
        short_code = generate_short_code()
  \<close>
  It has no bound, so it is a partial function: \<open>None\<close> is the loop that never ends.
\<close>

partial_function (option) shorten_url_while :: "store \<Rightarrow> string \<Rightarrow> rng \<Rightarrow> (string \<times> rng) option" where
  "shorten_url_while s code g =
     (if find_one_short_code code s \<noteq> None
      then (case generate_short_code 6 g of (code', g') \<Rightarrow> shorten_url_while s code' g')
      else Some (code, g))"

text \<open>
  \<open>shorten_url\<close>, on the string \<open>str(url_input.original_url)\<close> and the value
  \<open>datetime.utcnow()\<close> returns when the document is built. The result is the
  response, the collection and the random source after the call; \<open>None\<close> when the
  call never returns.
\<close>

definition shorten_url :: "string \<Rightarrow> datetime \<Rightarrow> store \<Rightarrow> rng \<Rightarrow> (URLResponse \<times> store \<times> rng) option" where
  "shorten_url url now s g =
     (case find_one_original_url url s of
        Some existing_url \<Rightarrow>
          Some (URLResponse (short_code existing_url) (original_url existing_url)
                  (created_at existing_url), s, g)
      | None \<Rightarrow>
          (case generate_short_code 6 g of (code0, g0) \<Rightarrow>
             (case shorten_url_while s code0 g0 of
                None \<Rightarrow> None
              | Some (code1, g1) \<Rightarrow>
                  (let url_data = \<lparr>short_code = code1, original_url = url,
                                    created_at = now, clicks = 0\<rparr>
                   in Some (URLResponse code1 url (created_at url_data),
                            insert_one url_data s, g1)))))"

subsection \<open>\<open>redirect_to_url\<close> and \<open>get_url_stats\<close>\<close>

datatype http_error = HTTPException (status_code: nat) (detail: string)

text \<open>The body \<open>{"url": ...}\<close>.\<close>

datatype redirect_response = RedirectResponse (url: string)

text \<open>
  \<open>redirect_to_url\<close>: the collection after the call, and the exception raised or
  the body returned. The exception is raised before \<open>update_one\<close> is reached.
\<close>

definition redirect_to_url :: "string \<Rightarrow> store \<Rightarrow> store \<times> (http_error + redirect_response)" where
  "redirect_to_url c s =
     (case find_one_short_code c s of
        None \<Rightarrow> (s, Inl (HTTPException 404 ''URL not found''))
      | Some url_data \<Rightarrow>
          (update_one_inc_clicks c s, Inr (RedirectResponse (original_url url_data))))"

text \<open>
  \<open>get_url_stats\<close> only reads. Its body has the four fields of the document.
\<close>

definition get_url_stats :: "string \<Rightarrow> store \<Rightarrow> http_error + url_doc" where
  "get_url_stats c s =
     (case find_one_short_code c s of
        None \<Rightarrow> Inl (HTTPException 404 ''URL not found'')
      | Some url_data \<Rightarrow>
          Inr \<lparr>short_code = short_code url_data, original_url = original_url url_data,
               created_at = created_at url_data, clicks = clicks url_data\<rparr>)"

subsection \<open>Sequences of requests\<close>

datatype request = Shorten string datetime | Redirect string | Stats string

text \<open>
  One request against the service's state. A 404 is an answer like any other: the
  service goes on. A submission that never returns leaves no state to go on from.
\<close>

fun handle :: "request \<Rightarrow> store \<times> rng \<Rightarrow> (store \<times> rng) option" where
  "handle (Shorten u now) (s, g) =
     (case shorten_url u now s g of None \<Rightarrow> None | Some (r, s', g') \<Rightarrow> Some (s', g'))"
| "handle (Redirect c) (s, g) = Some (fst (redirect_to_url c s), g)"
| "handle (Stats c) (s, g) = Some (s, g)"

fun run :: "request list \<Rightarrow> store \<times> rng \<Rightarrow> (store \<times> rng) option" where
  "run [] st = Some st"
| "run (q # qs) st = (case handle q st of None \<Rightarrow> None | Some st' \<Rightarrow> run qs st')"

text \<open>\<open>n\<close> calls of \<open>redirect_to_url\<close> with the same code, one after another.\<close>

fun redirects :: "nat \<Rightarrow> string \<Rightarrow> store \<Rightarrow> store" where
  "redirects 0 c s = s"
| "redirects (Suc n) c s = redirects n c (fst (redirect_to_url c s))"

text \<open>
  The codes the loop of \<open>shorten_url\<close> tests, in order: the one it starts with, then
  one \<open>generate_short_code()\<close> after another.
\<close>

fun candidate :: "nat \<Rightarrow> string \<Rightarrow> rng \<Rightarrow> string" where
  "candidate 0 c g = c"
| "candidate (Suc k) c g =
     (case generate_short_code 6 g of (c', g') \<Rightarrow> candidate k c' g')"

text \<open>
  A collection in which every code is in use: one document for each string of six
  symbols of \<open>characters\<close>.
\<close>

definition full_store :: store where
  "full_store =
     map (\<lambda>c. \<lparr>short_code = c, original_url = ''https://example.com/'' @ c,
                created_at = 0, clicks = 0\<rparr>)
       (List.n_lists 6 characters)"

section \<open>Lookups, updates and the generator\<close>

lemma find_one_short_code_None: "find_one_short_code c s = None \<longleftrightarrow> c \<notin> short_code ` set s"
  by (auto simp: find_one_short_code_def find_None_iff)

lemma find_one_short_code_Some:
  "find_one_short_code c s = Some d \<Longrightarrow> d \<in> set s \<and> short_code d = c"
  by (auto simp: find_one_short_code_def find_Some_iff)


lemma find_one_short_code_distinct:
  "distinct (map short_code s) \<Longrightarrow> d \<in> set s \<Longrightarrow> find_one_short_code (short_code d) s = Some d"
  by (induction s) (auto simp: find_one_short_code_def)


lemma find_one_short_code_update:
  "find_one_short_code c s = Some d \<Longrightarrow>
   find_one_short_code c (update_one_inc_clicks c s) = Some (d\<lparr>clicks := clicks d + 1\<rparr>)"
  by (induction s) (auto simp: find_one_short_code_def)

lemma map_short_code_update: "map short_code (update_one_inc_clicks c s) = map short_code s"
  by (induction s) auto

lemma length_update_one_inc_clicks: "length (update_one_inc_clicks c s) = length s"
  by (induction s) auto

lemma nth_update_one_inc_clicks:
  "i < length s \<Longrightarrow>
   update_one_inc_clicks c s ! i =
     (if short_code (s ! i) = c \<and> (\<forall>j<i. short_code (s ! j) \<noteq> c)
      then (s ! i)\<lparr>clicks := clicks (s ! i) + 1\<rparr> else s ! i)"
proof (induction s arbitrary: i)
  case Nil
  then show ?case by simp
next
  case (Cons d s)
  show ?case
  proof (cases i)
    case 0
    then show ?thesis by simp
  next
    case (Suc k)
    with Cons.prems have k: "k < length s" by simp
    show ?thesis
    proof (cases "short_code d = c")
      case True
      then have "\<not> (\<forall>j<i. short_code ((d # s) ! j) \<noteq> c)" using Suc by auto
      with True Suc show ?thesis by simp
    next
      case False
      have "(\<forall>j<i. short_code ((d # s) ! j) \<noteq> c) \<longleftrightarrow> (\<forall>j<k. short_code (s ! j) \<noteq> c)"
        using False Suc by (auto simp: less_Suc_eq_0_disj)
      with False Suc Cons.IH [OF k] show ?thesis by simp
    qed
  qed
qed

lemma length_characters: "length characters = 62"
  by (simp add: characters_def ascii_letters_def ascii_lowercase_def ascii_uppercase_def digits_def)

lemma distinct_characters: "distinct characters"
  by (simp add: characters_def ascii_letters_def ascii_lowercase_def ascii_uppercase_def digits_def)

lemma choice_characters: "fst (choice characters g) \<in> set characters"
  by (simp add: choice_def randbelow_def length_characters)

lemma join_choices_length: "length (fst (join_choices n g)) = n"
proof (induction n arbitrary: g)
  case 0
  show ?case by simp
next
  case (Suc n)
  obtain ch g' where c: "choice characters g = (ch, g')" by (cases "choice characters g")
  obtain rest g'' where j: "join_choices n g' = (rest, g'')" by (cases "join_choices n g'")
  from Suc.IH [of g'] j show ?case by (simp add: c)
qed

lemma join_choices_set: "set (fst (join_choices n g)) \<subseteq> set characters"
proof (induction n arbitrary: g)
  case 0
  show ?case by simp
next
  case (Suc n)
  obtain ch g' where c: "choice characters g = (ch, g')" by (cases "choice characters g")
  obtain rest g'' where j: "join_choices n g' = (rest, g'')" by (cases "join_choices n g'")
  from choice_characters [of g] c have "ch \<in> set characters" by simp
  moreover from Suc.IH [of g'] j have "set rest \<subseteq> set characters" by simp
  ultimately show ?case by (simp add: c j)
qed

section \<open>The submission and its loop\<close>

lemma shorten_url_existing:
  "find_one_original_url u s = Some d \<Longrightarrow>
   shorten_url u now s g = Some (URLResponse (short_code d) (original_url d) (created_at d), s, g)"
  by (simp add: shorten_url_def)

lemma shorten_url_new:
  "find_one_original_url u s = None \<Longrightarrow> shorten_url u now s g = Some (r, s', g') \<Longrightarrow>
   r = URLResponse (short_url r) u now \<and>
   s' = insert_one \<lparr>short_code = short_url r, original_url = u, created_at = now, clicks = 0\<rparr> s"
  by (auto simp: shorten_url_def Let_def split: prod.splits option.splits)


lemma shorten_url_while_unused:
  assumes "shorten_url_while s c g = Some y"
  shows "find_one_short_code (fst y) s = None"
proof (rule shorten_url_while.raw_induct
    [where P = "\<lambda>s c g y. find_one_short_code (fst y) s = None", OF _ assms], goal_cases)
  case (1 loop s c g y)
  show ?case
  proof (cases "find_one_short_code c s")
    case None
    with 1(2) show ?thesis by auto
  next
    case (Some d)
    obtain c' g' where gen: "generate_short_code 6 g = (c', g')"
      by (cases "generate_short_code 6 g")
    from 1(2) Some gen have "loop s c' g' = Some y" by simp
    then show ?thesis by (rule 1(1))
  qed
qed

lemma shorten_url_while_candidate:
  assumes "shorten_url_while s c g = Some y"
  shows "\<exists>k. find_one_short_code (candidate k c g) s = None"
proof (rule shorten_url_while.raw_induct
    [where P = "\<lambda>s c g y. \<exists>k. find_one_short_code (candidate k c g) s = None", OF _ assms],
    goal_cases)
  case (1 loop s c g y)
  show ?case
  proof (cases "find_one_short_code c s")
    case None
    then have "find_one_short_code (candidate 0 c g) s = None" by simp
    then show ?thesis by blast
  next
    case (Some d)
    obtain c' g' where gen: "generate_short_code 6 g = (c', g')"
      by (cases "generate_short_code 6 g")
    from 1(2) Some gen have "loop s c' g' = Some y" by simp
    then obtain k where "find_one_short_code (candidate k c' g') s = None"
      using 1(1) by blast
    then have "find_one_short_code (candidate (Suc k) c g) s = None" by (simp add: gen)
    then show ?thesis by blast
  qed
qed

lemma candidate_shorten_url_while:
  "find_one_short_code (candidate k c g) s = None \<Longrightarrow> \<exists>y. shorten_url_while s c g = Some y"
proof (induction k arbitrary: c g)
  case 0
  then show ?case by (subst shorten_url_while.simps) simp
next
  case (Suc k)
  obtain c' g' where gen: "generate_short_code 6 g = (c', g')"
    by (cases "generate_short_code 6 g")
  from Suc.prems gen have "find_one_short_code (candidate k c' g') s = None" by simp
  from Suc.IH [OF this] obtain y where y: "shorten_url_while s c' g' = Some y" by blast
  show ?case
  proof (cases "find_one_short_code c s")
    case None
    then show ?thesis by (subst shorten_url_while.simps) simp
  next
    case (Some d)
    then show ?thesis by (subst shorten_url_while.simps) (simp add: gen y)
  qed
qed

lemma shorten_url_new_unused:
  assumes "find_one_original_url u s = None" and "shorten_url u now s g = Some (r, s', g')"
  shows "find_one_short_code (short_url r) s = None"
proof -
  obtain c0 g0 where gen: "generate_short_code 6 g = (c0, g0)"
    by (cases "generate_short_code 6 g")
  from assms gen obtain c1 g1 where w: "shorten_url_while s c0 g0 = Some (c1, g1)"
    and r: "short_url r = c1"
    by (auto simp: shorten_url_def Let_def split: option.splits)
  from shorten_url_while_unused [OF w] r show ?thesis by simp
qed

lemma shorten_url_distinct:
  assumes "shorten_url u now s g = Some (r, s', g')" and "distinct (map short_code s)"
  shows "distinct (map short_code s')"
proof (cases "find_one_original_url u s")
  case None
  from shorten_url_new_unused [OF None assms(1)] have "short_url r \<notin> short_code ` set s"
    by (simp add: find_one_short_code_None)
  moreover from shorten_url_new [OF None assms(1)]
  have "map short_code s' = map short_code s @ [short_url r]" by (simp add: insert_one_def)
  ultimately show ?thesis using assms(2) by simp
next
  case (Some d)
  from shorten_url_existing [OF Some] assms show ?thesis by simp
qed

section \<open>Sequences of requests\<close>

lemma redirects_find:
  "find_one_short_code c s = Some d \<Longrightarrow>
   find_one_short_code c (redirects n c s) = Some (d\<lparr>clicks := clicks d + int n\<rparr>)"
proof (induction n arbitrary: s d)
  case 0
  then show ?case by simp
next
  case (Suc n)
  have "find_one_short_code c (fst (redirect_to_url c s)) = Some (d\<lparr>clicks := clicks d + 1\<rparr>)"
    using Suc.prems by (simp add: redirect_to_url_def find_one_short_code_update)
  from Suc.IH [OF this] show ?case by (simp add: add.assoc add.commute)
qed

lemma handle_distinct:
  "handle q (s, g) = Some (s', g') \<Longrightarrow> distinct (map short_code s) \<Longrightarrow>
   distinct (map short_code s')"
proof (cases q)
  case (Shorten u now)
  assume "handle q (s, g) = Some (s', g')" "distinct (map short_code s)"
  with Shorten show ?thesis
    by (auto split: option.splits dest: shorten_url_distinct)
next
  case (Redirect c)
  assume "handle q (s, g) = Some (s', g')" "distinct (map short_code s)"
  with Redirect show ?thesis
    by (auto simp: redirect_to_url_def map_short_code_update split: option.splits)
next
  case (Stats c)
  assume "handle q (s, g) = Some (s', g')" "distinct (map short_code s)"
  with Stats show ?thesis by auto
qed

lemma run_distinct:
  "run qs (s, g) = Some (s', g') \<Longrightarrow> distinct (map short_code s) \<Longrightarrow>
   distinct (map short_code s')"
proof (induction qs arbitrary: s g)
  case Nil
  then show ?case by simp
next
  case (Cons q qs)
  from Cons.prems(1) obtain s1 g1 where h: "handle q (s, g) = Some (s1, g1)"
    and r: "run qs (s1, g1) = Some (s', g')"
    by (auto split: option.splits)
  from handle_distinct [OF h Cons.prems(2)] have "distinct (map short_code s1)" .
  with r show ?case by (rule Cons.IH)
qed

lemma handle_prefix:
  assumes "handle q (s, g) = Some (s', g')"
  shows "length s \<le> length s' \<and> (\<forall>j<length s. short_code (s' ! j) = short_code (s ! j))"
proof (cases q)
  case (Shorten u now)
  with assms obtain r where sh: "shorten_url u now s g = Some (r, s', g')"
    by (auto split: option.splits)
  show ?thesis
  proof (cases "find_one_original_url u s")
    case None
    from shorten_url_new [OF None sh] show ?thesis by (auto simp: insert_one_def nth_append)
  next
    case (Some d)
    from shorten_url_existing [OF Some] sh show ?thesis by simp
  qed
next
  case (Redirect c)
  with assms have "s' = s \<or> s' = update_one_inc_clicks c s"
    by (auto simp: redirect_to_url_def split: option.splits)
  then show ?thesis
    by (auto simp: length_update_one_inc_clicks nth_update_one_inc_clicks)
next
  case (Stats c)
  with assms show ?thesis by simp
qed

lemma handle_clicks:
  assumes "handle q (s, g) = Some (s', g')" and "i < length s"
  shows "clicks (s' ! i) = clicks (s ! i) +
           (if q = Redirect (short_code (s ! i)) \<and> (\<forall>j<i. short_code (s ! j) \<noteq> short_code (s ! i))
            then 1 else 0)"
proof (cases q)
  case (Shorten u now)
  with assms obtain r where sh: "shorten_url u now s g = Some (r, s', g')"
    by (auto split: option.splits)
  have "s' ! i = s ! i"
  proof (cases "find_one_original_url u s")
    case None
    from shorten_url_new [OF None sh] assms(2) show ?thesis
      by (simp add: insert_one_def nth_append)
  next
    case (Some d)
    from shorten_url_existing [OF Some] sh show ?thesis by simp
  qed
  with Shorten show ?thesis by simp
next
  case (Redirect c)
  show ?thesis
  proof (cases "find_one_short_code c s")
    case None
    then have "c \<notin> short_code ` set s" by (simp add: find_one_short_code_None)
    with assms(2) have "short_code (s ! i) \<noteq> c" by (metis imageI nth_mem)
    moreover from None Redirect assms(1) have "s' = s" by (simp add: redirect_to_url_def)
    ultimately show ?thesis using Redirect by auto
  next
    case (Some d)
    with Redirect assms(1) have "s' = update_one_inc_clicks c s"
      by (simp add: redirect_to_url_def)
    with Redirect assms(2) show ?thesis by (auto simp: nth_update_one_inc_clicks)
  qed
next
  case (Stats c)
  with assms show ?thesis by simp
qed

lemma run_clicks:
  "run qs (s, g) = Some (s', g') \<Longrightarrow> i < length s \<Longrightarrow>
   i < length s' \<and> (\<forall>j\<le>i. short_code (s' ! j) = short_code (s ! j)) \<and>
   clicks (s' ! i) = clicks (s ! i) +
     (if \<forall>j<i. short_code (s ! j) \<noteq> short_code (s ! i)
      then int (count_list qs (Redirect (short_code (s ! i)))) else 0)"
proof (induction qs arbitrary: s g)
  case Nil
  then show ?case by simp
next
  case (Cons q qs)
  from Cons.prems(1) obtain s1 g1 where h: "handle q (s, g) = Some (s1, g1)"
    and r: "run qs (s1, g1) = Some (s', g')"
    by (auto split: option.splits)
  from handle_prefix [OF h] Cons.prems(2) have i1: "i < length s1"
    and codes: "\<forall>j\<le>i. short_code (s1 ! j) = short_code (s ! j)" by auto
  note step = handle_clicks [OF h Cons.prems(2)]
  note rest = Cons.IH [OF r i1]
  from codes have ci: "short_code (s1 ! i) = short_code (s ! i)" by simp
  from codes have first: "(\<forall>j<i. short_code (s1 ! j) \<noteq> short_code (s ! i)) =
      (\<forall>j<i. short_code (s ! j) \<noteq> short_code (s ! i))" by auto
  from rest have tail: "clicks (s' ! i) = clicks (s1 ! i) +
     (if \<forall>j<i. short_code (s ! j) \<noteq> short_code (s ! i)
      then int (count_list qs (Redirect (short_code (s ! i)))) else 0)"
    by (simp add: ci first cong: if_cong)
  from rest have "i < length s'" by simp
  moreover from rest codes have "\<forall>j\<le>i. short_code (s' ! j) = short_code (s ! j)" by simp
  moreover from tail step have "clicks (s' ! i) = clicks (s ! i) +
     (if \<forall>j<i. short_code (s ! j) \<noteq> short_code (s ! i)
      then int (count_list (q # qs) (Redirect (short_code (s ! i)))) else 0)"
    by auto
  ultimately show ?case by blast
qed

section \<open>The handlers on concrete inputs\<close>
text \<open>
  The draws \<open>0\<close> and \<open>2\<close> select \<open>a\<close> and \<open>c\<close>, so six equal draws give the codes
  \<open>aaaaaa\<close> and \<open>cccccc\<close>.
\<close>

lemma choice_characters_SCons:
  "choice characters (a ## g) = (characters ! (a mod 62), g)"
  by (simp add: choice_def randbelow_def length_characters)

lemma join_choices_six:
  "join_choices (Suc (Suc (Suc (Suc (Suc (Suc 0)))))) (a ## b ## c ## d ## e ## f ## g) =
     ([characters ! (a mod 62), characters ! (b mod 62), characters ! (c mod 62),
       characters ! (d mod 62), characters ! (e mod 62), characters ! (f mod 62)], g)"
  by (simp only: join_choices.simps choice_characters_SCons prod.case)

lemma nat_six: "nat 6 = Suc (Suc (Suc (Suc (Suc (Suc 0)))))"
  by simp

lemma generate_short_code_six:
  "generate_short_code 6 (a ## b ## c ## d ## e ## f ## g) =
     ([characters ! (a mod 62), characters ! (b mod 62), characters ! (c mod 62),
       characters ! (d mod 62), characters ! (e mod 62), characters ! (f mod 62)], g)"
  by (simp only: generate_short_code_def nat_six join_choices_six)

lemma characters_0: "characters ! 0 = CHR ''a''"
  by (simp add: characters_def ascii_letters_def ascii_lowercase_def)

lemma characters_2: "characters ! 2 = CHR ''c''"
  by (simp add: characters_def ascii_letters_def ascii_lowercase_def)

lemma generate_short_code_zeros:
  "generate_short_code 6 (0 ## 0 ## 0 ## 0 ## 0 ## 0 ## g) = (''aaaaaa'', g)"
  by (simp add: generate_short_code_six characters_0)

lemma generate_short_code_twos:
  "generate_short_code 6 (2 ## 2 ## 2 ## 2 ## 2 ## 2 ## g) = (''cccccc'', g)"
  by (simp add: generate_short_code_six characters_2)

lemma shorten_url_first:
  "shorten_url ''https://example.com/a'' 1234567 [] (0 ## 0 ## 0 ## 0 ## 0 ## 0 ## g) =
     Some (URLResponse ''aaaaaa'' ''https://example.com/a'' 1234567,
           [\<lparr>short_code = ''aaaaaa'', original_url = ''https://example.com/a'', created_at = 1234000, clicks = 0\<rparr>],
           g)"
proof -
  have "shorten_url_while [] ''aaaaaa'' g = Some (''aaaaaa'', g)"
    by (subst shorten_url_while.simps) (simp add: find_one_short_code_def)
  then show ?thesis
    by (simp add: shorten_url_def find_one_original_url_def generate_short_code_zeros insert_one_def
          bson_datetime_def)
qed

lemma shorten_url_second:
  "shorten_url ''https://example.com/b'' 2345678
     [\<lparr>short_code = ''aaaaaa'', original_url = ''https://example.com/a'', created_at = 1234000, clicks = 0\<rparr>]
     (0 ## 0 ## 0 ## 0 ## 0 ## 0 ## 2 ## 2 ## 2 ## 2 ## 2 ## 2 ## g) =
     Some (URLResponse ''cccccc'' ''https://example.com/b'' 2345678,
           [\<lparr>short_code = ''aaaaaa'', original_url = ''https://example.com/a'', created_at = 1234000, clicks = 0\<rparr>,
            \<lparr>short_code = ''cccccc'', original_url = ''https://example.com/b'', created_at = 2345000, clicks = 0\<rparr>],
           g)"
proof -
  let ?s = "[\<lparr>short_code = ''aaaaaa'', original_url = ''https://example.com/a'', created_at = 1234000, clicks = 0::int\<rparr>]"
  have "shorten_url_while ?s ''cccccc'' g = Some (''cccccc'', g)"
    by (subst shorten_url_while.simps) (simp add: find_one_short_code_def)
  then have "shorten_url_while ?s ''aaaaaa'' (2 ## 2 ## 2 ## 2 ## 2 ## 2 ## g) = Some (''cccccc'', g)"
    by (subst shorten_url_while.simps) (simp add: find_one_short_code_def generate_short_code_twos)
  then show ?thesis
    by (simp add: shorten_url_def find_one_original_url_def generate_short_code_zeros insert_one_def
          bson_datetime_def)
qed

lemma generate_short_code_n_lists:
  "fst (generate_short_code 6 g) \<in> set (List.n_lists 6 characters)"
  using join_choices_length [of "nat 6" g] join_choices_set [of "nat 6" g]
  by (simp add: generate_short_code_def set_n_lists)

lemma candidate_n_lists:
  "c \<in> set (List.n_lists 6 characters) \<Longrightarrow> candidate k c g \<in> set (List.n_lists 6 characters)"
proof (induction k arbitrary: c g)
  case 0
  then show ?case by simp
next
  case (Suc k)
  obtain c' g' where gen: "generate_short_code 6 g = (c', g')"
    by (cases "generate_short_code 6 g")
  from generate_short_code_n_lists [of g] gen have "c' \<in> set (List.n_lists 6 characters)"
    by simp
  from Suc.IH [OF this, of g'] gen show ?case by simp
qed

lemma find_one_short_code_full_store:
  "c \<in> set (List.n_lists 6 characters) \<Longrightarrow> find_one_short_code c full_store \<noteq> None"
  by (simp add: find_one_short_code_None full_store_def image_image)

lemma shorten_url_while_full_store:
  assumes "c \<in> set (List.n_lists 6 characters)"
  shows "shorten_url_while full_store c g = None"
proof (cases "shorten_url_while full_store c g")
  case None
  then show ?thesis .
next
  case (Some y)
  from shorten_url_while_candidate [OF Some]
  obtain k where "find_one_short_code (candidate k c g) full_store = None" by blast
  with find_one_short_code_full_store [OF candidate_n_lists [OF assms, of k g]]
  show ?thesis by simp
qed

lemma find_one_original_url_full_store:
  "find_one_original_url ''https://example.com/new'' full_store = None"
proof -
  have "''https://example.com/'' @ c \<noteq> ''https://example.com/new''"
    if "c \<in> set (List.n_lists 6 characters)" for c
  proof
    assume "''https://example.com/'' @ c = ''https://example.com/new''"
    then have "c = ''new''" by simp
    with that show False by (simp add: set_n_lists)
  qed
  then show ?thesis
    by (auto simp: find_one_original_url_def find_None_iff full_store_def)
qed

lemma run_example:
  "run [Shorten ''https://example.com/a'' 1234567, Shorten ''https://example.com/b'' 2345678, Redirect ''aaaaaa'']
     ([], 0 ## 0 ## 0 ## 0 ## 0 ## 0 ## 0 ## 0 ## 0 ## 0 ## 0 ## 0 ## 2 ## 2 ## 2 ## 2 ## 2 ## 2 ## g) =
     Some ([\<lparr>short_code = ''aaaaaa'', original_url = ''https://example.com/a'', created_at = 1234000, clicks = 1\<rparr>,
            \<lparr>short_code = ''cccccc'', original_url = ''https://example.com/b'', created_at = 2345000, clicks = 0\<rparr>], g)"
  by (simp add: shorten_url_first shorten_url_second redirect_to_url_def find_one_short_code_def)

lemma run_example_clicks:
  "run [Shorten ''https://example.com/b'' 2345678, Redirect ''aaaaaa'', Stats ''aaaaaa'', Redirect ''zzzzzz'',
        Redirect ''aaaaaa'']
     ([\<lparr>short_code = ''aaaaaa'', original_url = ''https://example.com/a'', created_at = 1234000, clicks = 0\<rparr>],
      0 ## 0 ## 0 ## 0 ## 0 ## 0 ## 2 ## 2 ## 2 ## 2 ## 2 ## 2 ## g) =
     Some ([\<lparr>short_code = ''aaaaaa'', original_url = ''https://example.com/a'', created_at = 1234000, clicks = 2\<rparr>,
            \<lparr>short_code = ''cccccc'', original_url = ''https://example.com/b'', created_at = 2345000, clicks = 0\<rparr>], g)"
  by (simp add: shorten_url_second redirect_to_url_def find_one_short_code_def)

section \<open>The claims\<close>



text \<open>
  C2. Whatever requests are served one after another from the empty collection, and
  whatever the random source draws, no two documents of the collection share a
  \<open>short_code\<close>.
\<close>

theorem short_code_unique_reachable:
  assumes "run qs ([], g) = Some (s, g')"
  shows "distinct (map short_code s)"
  using run_distinct [OF assms] by simp

theorem short_code_unique_reachable_witness:
  "run [Shorten ''https://example.com/a'' 1234567, Shorten ''https://example.com/b'' 2345678, Redirect ''aaaaaa'']
     ([], 0 ## 0 ## 0 ## 0 ## 0 ## 0 ## 0 ## 0 ## 0 ## 0 ## 0 ## 0 ## 2 ## 2 ## 2 ## 2 ## 2 ## 2 ## sconst 0) =
     Some ([\<lparr>short_code = ''aaaaaa'', original_url = ''https://example.com/a'', created_at = 1234000, clicks = 1\<rparr>,
            \<lparr>short_code = ''cccccc'', original_url = ''https://example.com/b'', created_at = 2345000, clicks = 0\<rparr>], sconst 0) \<and>
   distinct (map short_code
     [\<lparr>short_code = ''aaaaaa'', original_url = ''https://example.com/a'', created_at = 1234000, clicks = 1\<rparr>,
      \<lparr>short_code = ''cccccc'', original_url = ''https://example.com/b'', created_at = 2345000, clicks = 0\<rparr>])"
proof -
  have ev: "run [Shorten ''https://example.com/a'' 1234567, Shorten ''https://example.com/b'' 2345678, Redirect ''aaaaaa'']
     ([], 0 ## 0 ## 0 ## 0 ## 0 ## 0 ## 0 ## 0 ## 0 ## 0 ## 0 ## 0 ## 2 ## 2 ## 2 ## 2 ## 2 ## 2 ## sconst 0) =
     Some ([\<lparr>short_code = ''aaaaaa'', original_url = ''https://example.com/a'', created_at = 1234000, clicks = 1\<rparr>,
            \<lparr>short_code = ''cccccc'', original_url = ''https://example.com/b'', created_at = 2345000, clicks = 0\<rparr>], sconst 0)"
    by (rule run_example)
  from short_code_unique_reachable [OF ev] ev show ?thesis by blast
qed
text \<open>
  C3, as the code has it. The loop of \<open>shorten_url\<close> has no retry ceiling and no
  outcome for an exhausted one. It returns exactly when one of the codes it tests, the
  first or a later draw, has no document in the collection, and the code it returns is
  such a code.
\<close>

theorem shorten_url_while_returns_iff:
  "((\<exists>y. shorten_url_while s c g = Some y) \<longleftrightarrow>
      (\<exists>k. find_one_short_code (candidate k c g) s = None)) \<and>
   (\<forall>y. shorten_url_while s c g = Some y \<longrightarrow> find_one_short_code (fst y) s = None)"
  using shorten_url_while_candidate candidate_shorten_url_while shorten_url_while_unused
  by blast

theorem shorten_url_while_returns_iff_witness:
  "find_one_short_code (candidate 1 ''aaaaaa'' (2 ## 2 ## 2 ## 2 ## 2 ## 2 ## sconst 0))
     [\<lparr>short_code = ''aaaaaa'', original_url = ''https://example.com/a'', created_at = 1234000, clicks = 0\<rparr>] = None \<and>
   (\<exists>y. shorten_url_while
          [\<lparr>short_code = ''aaaaaa'', original_url = ''https://example.com/a'', created_at = 1234000, clicks = 0\<rparr>]
          ''aaaaaa'' (2 ## 2 ## 2 ## 2 ## 2 ## 2 ## sconst 0) = Some y \<and>
        find_one_short_code (fst y)
          [\<lparr>short_code = ''aaaaaa'', original_url = ''https://example.com/a'', created_at = 1234000, clicks = 0\<rparr>] = None)"
proof -
  have c: "find_one_short_code (candidate 1 ''aaaaaa'' (2 ## 2 ## 2 ## 2 ## 2 ## 2 ## sconst 0))
     [\<lparr>short_code = ''aaaaaa'', original_url = ''https://example.com/a'', created_at = 1234000, clicks = 0\<rparr>] = None"
    by (simp add: generate_short_code_twos find_one_short_code_def)
  with shorten_url_while_returns_iff
         [of "[\<lparr>short_code = ''aaaaaa'', original_url = ''https://example.com/a'', created_at = 1234000, clicks = 0\<rparr>]" "''aaaaaa''" "2 ## 2 ## 2 ## 2 ## 2 ## 2 ## sconst 0"]
  show ?thesis by blast
qed
text \<open>
  C3 as stated fails: on a collection in which every six-symbol code is in use, the
  submission of a new URL never returns, whatever the random source draws; no ceiling
  stops the loop and no error is raised.
\<close>

theorem shorten_url_full_store_never_returns:
  "\<forall>g. shorten_url ''https://example.com/new'' 0 full_store g = None"
proof
  fix g
  obtain c0 g0 where gen: "generate_short_code 6 g = (c0, g0)"
    by (cases "generate_short_code 6 g")
  from generate_short_code_n_lists [of g] gen have "c0 \<in> set (List.n_lists 6 characters)"
    by simp
  from shorten_url_while_full_store [OF this, of g0] gen
  show "shorten_url ''https://example.com/new'' 0 full_store g = None"
    by (simp add: shorten_url_def find_one_original_url_full_store)
qed

text \<open>
  C4. When the lookup of \<open>c\<close> finds a document with \<open>clicks = 0\<close>, then after
  \<open>n\<close> calls of \<open>redirect_to_url\<close> with \<open>c\<close>, one after another, the lookup of
  \<open>c\<close> finds the same document with \<open>clicks = n\<close>.
\<close>

theorem redirects_clicks_exact:
  assumes "find_one_short_code c s = Some d" and "clicks d = 0"
  shows "find_one_short_code c (redirects n c s) = Some (d\<lparr>clicks := int n\<rparr>)"
  using redirects_find [OF assms(1), of n] assms(2) by simp

theorem redirects_clicks_exact_witness:
  "find_one_short_code ''aaaaaa''
     [\<lparr>short_code = ''aaaaaa'', original_url = ''https://example.com/a'', created_at = 1234000, clicks = 0\<rparr>,
      \<lparr>short_code = ''cccccc'', original_url = ''https://example.com/b'', created_at = 2345000, clicks = 0\<rparr>] =
     Some \<lparr>short_code = ''aaaaaa'', original_url = ''https://example.com/a'', created_at = 1234000, clicks = 0\<rparr> \<and>
   find_one_short_code ''aaaaaa''
     (redirects 3 ''aaaaaa''
        [\<lparr>short_code = ''aaaaaa'', original_url = ''https://example.com/a'', created_at = 1234000, clicks = 0\<rparr>,
         \<lparr>short_code = ''cccccc'', original_url = ''https://example.com/b'', created_at = 2345000, clicks = 0\<rparr>]) =
     Some \<lparr>short_code = ''aaaaaa'', original_url = ''https://example.com/a'', created_at = 1234000, clicks = 3\<rparr>"
proof -
  have f: "find_one_short_code ''aaaaaa''
     [\<lparr>short_code = ''aaaaaa'', original_url = ''https://example.com/a'', created_at = 1234000, clicks = 0\<rparr>,
      \<lparr>short_code = ''cccccc'', original_url = ''https://example.com/b'', created_at = 2345000, clicks = 0\<rparr>] =
     Some \<lparr>short_code = ''aaaaaa'', original_url = ''https://example.com/a'', created_at = 1234000, clicks = 0\<rparr>"
    by (simp add: find_one_short_code_def)
  from redirects_clicks_exact [OF f, of 3] f show ?thesis by simp
qed
text \<open>
  C5. \<open>redirect_to_url\<close> returns the \<open>original_url\<close> of the document its lookup
  finds; where codes are unique, that is the \<open>original_url\<close> of the one document with
  the code.
\<close>

theorem redirect_to_url_result:
  "(find_one_short_code c s = Some d \<longrightarrow>
      snd (redirect_to_url c s) = Inr (RedirectResponse (original_url d))) \<and>
   (distinct (map short_code s) \<and> d \<in> set s \<longrightarrow>
      snd (redirect_to_url (short_code d) s) = Inr (RedirectResponse (original_url d)))"
  by (auto simp: redirect_to_url_def find_one_short_code_distinct)

theorem redirect_to_url_result_witness:
  "find_one_short_code ''cccccc''
     [\<lparr>short_code = ''aaaaaa'', original_url = ''https://example.com/a'', created_at = 1234000, clicks = 0\<rparr>,
      \<lparr>short_code = ''cccccc'', original_url = ''https://example.com/b'', created_at = 2345000, clicks = 0\<rparr>] =
     Some \<lparr>short_code = ''cccccc'', original_url = ''https://example.com/b'', created_at = 2345000, clicks = 0\<rparr> \<and>
   distinct (map short_code
     [\<lparr>short_code = ''aaaaaa'', original_url = ''https://example.com/a'', created_at = 1234000, clicks = 0\<rparr>,
      \<lparr>short_code = ''cccccc'', original_url = ''https://example.com/b'', created_at = 2345000, clicks = 0\<rparr>]) \<and>
   snd (redirect_to_url ''cccccc''
     [\<lparr>short_code = ''aaaaaa'', original_url = ''https://example.com/a'', created_at = 1234000, clicks = 0\<rparr>,
      \<lparr>short_code = ''cccccc'', original_url = ''https://example.com/b'', created_at = 2345000, clicks = 0\<rparr>]) =
     Inr (RedirectResponse ''https://example.com/b'')"
proof -
  have f: "find_one_short_code ''cccccc''
     [\<lparr>short_code = ''aaaaaa'', original_url = ''https://example.com/a'', created_at = 1234000, clicks = 0\<rparr>,
      \<lparr>short_code = ''cccccc'', original_url = ''https://example.com/b'', created_at = 2345000, clicks = 0\<rparr>] =
     Some \<lparr>short_code = ''cccccc'', original_url = ''https://example.com/b'', created_at = 2345000, clicks = 0\<rparr>"
    by (simp add: find_one_short_code_def)
  from redirect_to_url_result
         [of "''cccccc''"
             "[\<lparr>short_code = ''aaaaaa'', original_url = ''https://example.com/a'', created_at = 1234000, clicks = 0\<rparr>,
               \<lparr>short_code = ''cccccc'', original_url = ''https://example.com/b'', created_at = 2345000, clicks = 0\<rparr>]"
             "\<lparr>short_code = ''cccccc'', original_url = ''https://example.com/b'', created_at = 2345000, clicks = 0\<rparr>"] f
  show ?thesis by simp
qed
text \<open>
  C6. For a code that no document has, \<open>redirect_to_url\<close> and
  \<open>get_url_stats\<close> both raise the 404 exception.
\<close>

theorem unknown_code_not_found:
  assumes "c \<notin> short_code ` set s"
  shows "snd (redirect_to_url c s) = Inl (HTTPException 404 ''URL not found'') \<and>
         get_url_stats c s = Inl (HTTPException 404 ''URL not found'')"
  using assms by (simp add: redirect_to_url_def get_url_stats_def find_one_short_code_None [symmetric])

theorem unknown_code_not_found_witness:
  "''zzzzzz'' \<notin> short_code ` set
     [\<lparr>short_code = ''aaaaaa'', original_url = ''https://example.com/a'', created_at = 1234000, clicks = 0\<rparr>] \<and>
   snd (redirect_to_url ''zzzzzz''
     [\<lparr>short_code = ''aaaaaa'', original_url = ''https://example.com/a'', created_at = 1234000, clicks = 0\<rparr>]) =
     Inl (HTTPException 404 ''URL not found'') \<and>
   get_url_stats ''zzzzzz''
     [\<lparr>short_code = ''aaaaaa'', original_url = ''https://example.com/a'', created_at = 1234000, clicks = 0\<rparr>] =
     Inl (HTTPException 404 ''URL not found'')"
proof -
  have n: "''zzzzzz'' \<notin> short_code ` set
     [\<lparr>short_code = ''aaaaaa'', original_url = ''https://example.com/a'', created_at = 1234000, clicks = 0\<rparr>]"
    by simp
  from unknown_code_not_found [OF n] n show ?thesis by blast
qed
text \<open>
  C7. Over any sequence of requests, a document stays at its position with its code,
  and its \<open>clicks\<close> grows by exactly the number of \<open>redirect_to_url\<close> calls whose
  lookup found it: the calls with its code, when no earlier document has that code (and
  none otherwise). Submissions, statistics and redirects of other or unknown codes add
  nothing, so \<open>clicks\<close> never decreases.
\<close>

theorem clicks_changed_only_by_redirect:
  assumes "run qs (s, g) = Some (s', g')" and "i < length s"
  shows "i < length s' \<and> short_code (s' ! i) = short_code (s ! i) \<and>
         clicks (s ! i) \<le> clicks (s' ! i) \<and>
         clicks (s' ! i) = clicks (s ! i) +
           (if \<forall>j<i. short_code (s ! j) \<noteq> short_code (s ! i)
            then int (count_list qs (Redirect (short_code (s ! i)))) else 0)"
  using run_clicks [OF assms] by simp

theorem clicks_changed_only_by_redirect_witness:
  "run [Shorten ''https://example.com/b'' 2345678, Redirect ''aaaaaa'', Stats ''aaaaaa'', Redirect ''zzzzzz'',
        Redirect ''aaaaaa'']
     ([\<lparr>short_code = ''aaaaaa'', original_url = ''https://example.com/a'', created_at = 1234000, clicks = 0\<rparr>],
      0 ## 0 ## 0 ## 0 ## 0 ## 0 ## 2 ## 2 ## 2 ## 2 ## 2 ## 2 ## sconst 0) =
     Some ([\<lparr>short_code = ''aaaaaa'', original_url = ''https://example.com/a'', created_at = 1234000, clicks = 2\<rparr>,
            \<lparr>short_code = ''cccccc'', original_url = ''https://example.com/b'', created_at = 2345000, clicks = 0\<rparr>], sconst 0) \<and>
   clicks ([\<lparr>short_code = ''aaaaaa'', original_url = ''https://example.com/a'', created_at = 1234000, clicks = 2\<rparr>,
            \<lparr>short_code = ''cccccc'', original_url = ''https://example.com/b'', created_at = 2345000, clicks = 0\<rparr>] ! 0) =
     clicks ([\<lparr>short_code = ''aaaaaa'', original_url = ''https://example.com/a'', created_at = 1234000, clicks = 0\<rparr>] ! 0) + 2"
proof -
  have ev: "run [Shorten ''https://example.com/b'' 2345678, Redirect ''aaaaaa'', Stats ''aaaaaa'', Redirect ''zzzzzz'',
        Redirect ''aaaaaa'']
     ([\<lparr>short_code = ''aaaaaa'', original_url = ''https://example.com/a'', created_at = 1234000, clicks = 0\<rparr>],
      0 ## 0 ## 0 ## 0 ## 0 ## 0 ## 2 ## 2 ## 2 ## 2 ## 2 ## 2 ## sconst 0) =
     Some ([\<lparr>short_code = ''aaaaaa'', original_url = ''https://example.com/a'', created_at = 1234000, clicks = 2\<rparr>,
            \<lparr>short_code = ''cccccc'', original_url = ''https://example.com/b'', created_at = 2345000, clicks = 0\<rparr>], sconst 0)"
    by (rule run_example_clicks)
  have i: "0 < length [\<lparr>short_code = ''aaaaaa'', original_url = ''https://example.com/a'', created_at = 1234000, clicks = 0\<rparr>]"
    by simp
  from clicks_changed_only_by_redirect [OF ev i] ev show ?thesis by simp
qed
text \<open>
  C8. A code of \<open>generate_short_code\<close> has the length asked for (6 by default) and
  only symbols of \<open>characters\<close>, the 62 distinct letters and digits.
\<close>

theorem generate_short_code_shape:
  "(0 \<le> n \<longrightarrow> int (length (fst (generate_short_code n g))) = n) \<and>
   length (fst (generate_short_code 6 g)) = 6 \<and>
   set (fst (generate_short_code n g)) \<subseteq> set characters \<and>
   length characters = 62 \<and> distinct characters"
  by (simp add: generate_short_code_def join_choices_length join_choices_set
        length_characters distinct_characters)

theorem generate_short_code_shape_witness:
  "(0::int) \<le> 6 \<and>
   int (length (fst (generate_short_code 6 (0 ## 0 ## 0 ## 0 ## 0 ## 0 ## sconst 0)))) = 6 \<and>
   set (fst (generate_short_code 6 (0 ## 0 ## 0 ## 0 ## 0 ## 0 ## sconst 0))) \<subseteq> set characters \<and>
   fst (generate_short_code 6 (0 ## 0 ## 0 ## 0 ## 0 ## 0 ## sconst 0)) = ''aaaaaa''"
  using generate_short_code_shape [of 6 "0 ## 0 ## 0 ## 0 ## 0 ## 0 ## sconst 0"]
  by (simp add: generate_short_code_zeros)
text \<open>
  C9, as the code has it. \<open>insert_one\<close> itself refuses nothing. When
  \<open>shorten_url\<close> inserts, the document it appends carries a code for which the lookup,
  on the collection as it was at the call, found no document: uniqueness rests on that
  check before the insert.
\<close>

theorem shorten_url_inserts_unused_code:
  assumes "find_one_original_url u s = None" and "shorten_url u now s g = Some (r, s', g')"
  shows "find_one_short_code (short_url r) s = None \<and>
         s' = insert_one \<lparr>short_code = short_url r, original_url = u,
                          created_at = now, clicks = 0\<rparr> s"
  using shorten_url_new_unused [OF assms] shorten_url_new [OF assms] by simp

theorem shorten_url_inserts_unused_code_witness:
  "find_one_original_url ''https://example.com/b''
     [\<lparr>short_code = ''aaaaaa'', original_url = ''https://example.com/a'', created_at = 1234000, clicks = 0\<rparr>] = None \<and>
   shorten_url ''https://example.com/b'' 2345678
     [\<lparr>short_code = ''aaaaaa'', original_url = ''https://example.com/a'', created_at = 1234000, clicks = 0\<rparr>]
     (0 ## 0 ## 0 ## 0 ## 0 ## 0 ## 2 ## 2 ## 2 ## 2 ## 2 ## 2 ## sconst 0) =
     Some (URLResponse ''cccccc'' ''https://example.com/b'' 2345678,
           [\<lparr>short_code = ''aaaaaa'', original_url = ''https://example.com/a'', created_at = 1234000, clicks = 0\<rparr>,
            \<lparr>short_code = ''cccccc'', original_url = ''https://example.com/b'', created_at = 2345000, clicks = 0\<rparr>], sconst 0) \<and>
   find_one_short_code ''cccccc''
     [\<lparr>short_code = ''aaaaaa'', original_url = ''https://example.com/a'', created_at = 1234000, clicks = 0\<rparr>] = None \<and>
   [\<lparr>short_code = ''aaaaaa'', original_url = ''https://example.com/a'', created_at = 1234000, clicks = 0\<rparr>,
    \<lparr>short_code = ''cccccc'', original_url = ''https://example.com/b'', created_at = 2345000, clicks = 0\<rparr>] =
     insert_one
       \<lparr>short_code = ''cccccc'', original_url = ''https://example.com/b'', created_at = 2345678, clicks = 0\<rparr>
       [\<lparr>short_code = ''aaaaaa'', original_url = ''https://example.com/a'', created_at = 1234000, clicks = 0\<rparr>]"
proof -
  have n: "find_one_original_url ''https://example.com/b''
     [\<lparr>short_code = ''aaaaaa'', original_url = ''https://example.com/a'', created_at = 1234000, clicks = 0\<rparr>] = None"
    by (simp add: find_one_original_url_def)
  have ev: "shorten_url ''https://example.com/b'' 2345678
     [\<lparr>short_code = ''aaaaaa'', original_url = ''https://example.com/a'', created_at = 1234000, clicks = 0\<rparr>]
     (0 ## 0 ## 0 ## 0 ## 0 ## 0 ## 2 ## 2 ## 2 ## 2 ## 2 ## 2 ## sconst 0) =
     Some (URLResponse ''cccccc'' ''https://example.com/b'' 2345678,
           [\<lparr>short_code = ''aaaaaa'', original_url = ''https://example.com/a'', created_at = 1234000, clicks = 0\<rparr>,
            \<lparr>short_code = ''cccccc'', original_url = ''https://example.com/b'', created_at = 2345000, clicks = 0\<rparr>], sconst 0)"
    by (rule shorten_url_second)
  from shorten_url_inserts_unused_code [OF n ev] n ev show ?thesis
    by (simp add: insert_one_def bson_datetime_def)
qed
text \<open>
  C9 as stated fails: inserting a document whose code \<open>abc123\<close> is already in the
  collection succeeds, and the collection then holds the code twice.
\<close>

theorem insert_one_accepts_used_code:
  "find_one_short_code ''abc123''
     [\<lparr>short_code = ''abc123'', original_url = ''https://example.com/a'', created_at = 0, clicks = 0\<rparr>] =
     Some \<lparr>short_code = ''abc123'', original_url = ''https://example.com/a'', created_at = 0, clicks = 0\<rparr> \<and>
   map short_code
     (insert_one
        \<lparr>short_code = ''abc123'', original_url = ''https://example.com/b'', created_at = 1234000, clicks = 0\<rparr>
        [\<lparr>short_code = ''abc123'', original_url = ''https://example.com/a'', created_at = 0, clicks = 0\<rparr>]) =
     [''abc123'', ''abc123'']"
  by (simp add: find_one_short_code_def insert_one_def)
text \<open>
  C10. For a code that no document has, \<open>redirect_to_url\<close> leaves the collection
  as it was: every document and every \<open>clicks\<close> counter is unchanged.
\<close>

theorem redirect_to_url_unknown_code_no_write:
  assumes "c \<notin> short_code ` set s"
  shows "fst (redirect_to_url c s) = s"
  using assms by (simp add: redirect_to_url_def find_one_short_code_None [symmetric])

theorem redirect_to_url_unknown_code_no_write_witness:
  "''zzzzzz'' \<notin> short_code ` set
     [\<lparr>short_code = ''aaaaaa'', original_url = ''https://example.com/a'', created_at = 1234000, clicks = 0\<rparr>] \<and>
   fst (redirect_to_url ''zzzzzz''
     [\<lparr>short_code = ''aaaaaa'', original_url = ''https://example.com/a'', created_at = 1234000, clicks = 0\<rparr>]) =
     [\<lparr>short_code = ''aaaaaa'', original_url = ''https://example.com/a'', created_at = 1234000, clicks = 0\<rparr>]"
proof -
  have n: "''zzzzzz'' \<notin> short_code ` set
     [\<lparr>short_code = ''aaaaaa'', original_url = ''https://example.com/a'', created_at = 1234000, clicks = 0\<rparr>]"
    by simp
  from redirect_to_url_unknown_code_no_write [OF n] n show ?thesis by blast
qed

end
